theory Spec2Isabelle
  imports Complex_Main "HOL-Library.Sublist"
begin

section \<open>Payload values and dictionaries\<close>

text \<open>
  The backend (\<^verbatim>\<open>src/backend/main.py\<close>) works on the JSON payloads of the vector store.
  A payload value is \<^verbatim>\<open>None\<close>, a number or a string. Python compares and hashes
  \<^verbatim>\<open>bool\<close>, \<^verbatim>\<open>int\<close> and \<^verbatim>\<open>float\<close> by numeric value
  (\<^verbatim>\<open>True == 1 == 1.0\<close>), so one constructor over the reals stands for all three.
  Arrays and objects are left out: every field the backend reads (ids, names, paths) is a
  scalar in the catalogue, and an array could not serve as a dictionary key.
\<close>

datatype "value" = VNone | VNum real | VStr string

text \<open>A Python \<^verbatim>\<open>dict\<close> with string keys. A key can be present with the value \<^verbatim>\<open>None\<close>.\<close>

type_synonym dict = "string \<rightharpoonup> value"

text \<open>Truth value testing: \<^verbatim>\<open>None\<close>, zero and the empty string are false.\<close>

fun truthy :: "value \<Rightarrow> bool" where
  "truthy VNone = False"
| "truthy (VNum x) = (x \<noteq> 0)"
| "truthy (VStr s) = (s \<noteq> [])"

text \<open>\<^verbatim>\<open>d.get(k)\<close> and \<^verbatim>\<open>d.get(k, default)\<close>.\<close>

definition dict_get :: "dict \<Rightarrow> string \<Rightarrow> value" where
  "dict_get d k = (case d k of None \<Rightarrow> VNone | Some v \<Rightarrow> v)"

definition dict_get_default :: "dict \<Rightarrow> string \<Rightarrow> value \<Rightarrow> value" where
  "dict_get_default d k dflt = (case d k of None \<Rightarrow> dflt | Some v \<Rightarrow> v)"

text \<open>\<^verbatim>\<open>a or b\<close>: the first operand when it is true, the second otherwise.\<close>

definition py_or :: "value \<Rightarrow> value \<Rightarrow> value" where
  "py_or a b = (if truthy a then a else b)"

text \<open>\<^verbatim>\<open>s.replace(old, new)\<close> for one-character \<^verbatim>\<open>old\<close> and \<^verbatim>\<open>new\<close>.\<close>

definition str_replace :: "char \<Rightarrow> char \<Rightarrow> string \<Rightarrow> string" where
  "str_replace old new s = map (\<lambda>c. if c = old then new else c) s"

text \<open>
  \<^verbatim>\<open>s.split(sep)\<close> for a one-character separator: the pieces between the separators,
  never an empty list. The accumulator of \<open>split_from\<close> is the piece being read.
\<close>

fun split_from :: "char \<Rightarrow> string \<Rightarrow> string \<Rightarrow> string list" where
  "split_from sep cur [] = [cur]"
| "split_from sep cur (c # cs) =
     (if c = sep then cur # split_from sep [] cs else split_from sep (cur @ [c]) cs)"

definition str_split :: "char \<Rightarrow> string \<Rightarrow> string list" where
  "str_split sep s = split_from sep [] s"

text \<open>The exceptions the modelled code can meet.\<close>

datatype error =
    AttributeError  \<comment> \<open>a string method called on a value that is not a string\<close>
  | StoreError      \<comment> \<open>any failure of a call to the vector store or an extractor\<close>

section \<open>Search hits, caches and comprehensive results\<close>

text \<open>
  A hit of a similarity search (\<^verbatim>\<open>ScoredPoint\<close>): the stored payload and the score.
  The score is a float in the source and is only passed on, so a real stands for it and
  \<^verbatim>\<open>float(score)\<close> is the identity.
\<close>

record hit =
  payload :: dict
  score :: real

text \<open>
  The three module-level caches. Their keys are whatever \<^verbatim>\<open>payload.get("bird_id")\<close>
  returned at load time, \<^verbatim>\<open>None\<close> included.
\<close>

record caches =
  ALL_TEXT_DATA :: "value \<rightharpoonup> dict"
  ALL_IMAGE_DATA :: "value \<rightharpoonup> dict list"
  ALL_AUDIO_DATA :: "value \<rightharpoonup> dict list"

text \<open>
  The dictionary \<^verbatim>\<open>create_comprehensive_result\<close> returns, one field per key
  (\<open>size_field\<close> and \<open>extract_field\<close> for the keys \<^verbatim>\<open>size\<close> and \<^verbatim>\<open>extract\<close>).
\<close>

record result =
  bird_id :: "value"
  species_name :: "value"
  scientific_name :: "value"
  family :: "value"
  confidence_score :: real
  search_match_type :: string
  text_description :: "value"
  raw_text_data :: dict
  habitats :: string
  geographic_regions :: string
  size_field :: "value"
  ecology :: string
  group_dynamics :: string
  extract_field :: string
  url :: string
  images :: "dict list"
  primary_image :: "dict option"
  audio_clips :: "dict list"
  primary_audio :: "dict option"

text \<open>\<^verbatim>\<open>xs[0] if xs else None\<close>.\<close>

definition first_or_none :: "'a list \<Rightarrow> 'a option" where
  "first_or_none xs = (case xs of [] \<Rightarrow> None | x # _ \<Rightarrow> Some x)"

text \<open>
  \<^verbatim>\<open>cache.get(key, default)\<close> on one of the caches.
\<close>

definition cache_get :: "(value \<rightharpoonup> 'a) \<Rightarrow> value \<Rightarrow> 'a \<Rightarrow> 'a" where
  "cache_get m k dflt = (case m k of None \<Rightarrow> dflt | Some v \<Rightarrow> v)"

text \<open>
  The conditional expression of line 173 (the same at line 475). The condition
  \<^verbatim>\<open>text_info.get("species_name")\<close> is tested first; when it is true,
  \<^verbatim>\<open>.replace\<close> is called on that value, which raises on a number.
\<close>

definition wikipedia_url :: "dict \<Rightarrow> error + string" where
  "wikipedia_url text_info =
     (if truthy (dict_get text_info ''species_name'')
      then (case dict_get_default text_info ''species_name'' (VStr '''') of
              VStr s \<Rightarrow> Inr (''https://en.wikipedia.org/wiki/''
                                @ str_replace (CHR '' '') (CHR ''_'') s)
            | _ \<Rightarrow> Inl AttributeError)
      else Inr '''')"

text \<open>
  \<^verbatim>\<open>create_comprehensive_result\<close> (main.py, lines 143-180). It returns \<open>Inr None\<close> for
  Python's \<^verbatim>\<open>None\<close>. The URL of line 173 is the only expression of the dictionary that
  can raise.
\<close>

definition create_comprehensive_result ::
    "caches \<Rightarrow> hit \<Rightarrow> string \<Rightarrow> error + result option" where
  "create_comprehensive_result c search_result search_type =
     (let bid = dict_get (payload search_result) ''bird_id'' in
      if bid = VNone then Inr None
      else
        let text_info = cache_get (ALL_TEXT_DATA c) bid Map.empty;
            imgs = cache_get (ALL_IMAGE_DATA c) bid [];
            clips = cache_get (ALL_AUDIO_DATA c) bid []
        in
          case wikipedia_url text_info of
            Inl e \<Rightarrow> Inl e
          | Inr u \<Rightarrow>
              Inr (Some \<lparr>
                bird_id = bid,
                species_name = py_or (dict_get (payload search_result) ''species_name'')
                                     (dict_get_default text_info ''species_name'' (VStr ''Unknown'')),
                scientific_name = dict_get_default text_info ''scientific_name'' (VStr ''''),
                family = dict_get_default text_info ''family'' (VStr ''''),
                confidence_score = score search_result,
                search_match_type = search_type,
                text_description = dict_get_default text_info ''searchable_text'' (VStr ''''),
                raw_text_data = text_info,
                habitats = '''',
                geographic_regions = '''',
                size_field = dict_get_default text_info ''size'' (VStr ''''),
                ecology = '''',
                group_dynamics = '''',
                extract_field = '''',
                url = u,
                images = imgs,
                primary_image = first_or_none imgs,
                audio_clips = clips,
                primary_audio = first_or_none clips \<rparr>))"

section \<open>The snapshot cache\<close>

text \<open>
  The vector store is an external collaborator. \<open>store k coll limit\<close> is what the
  \<open>k\<close>-th call of \<^verbatim>\<open>qdrant_client.scroll\<close> answers for a collection and a page size:
  an exception, or the payloads of the points of the page, in the order received. A loader
  takes the number of calls made so far and returns the number after it, so that every
  call it makes is visible.
\<close>

type_synonym store = "nat \<Rightarrow> string \<Rightarrow> nat \<Rightarrow> error + dict list"

text \<open>
  \<^verbatim>\<open>get_all_text_data\<close> (lines 77-89). The dict comprehension of line 86 stores the
  points in order, so a later point replaces an earlier one with the same id.
\<close>

definition get_all_text_data :: "store \<Rightarrow> nat \<Rightarrow> (value \<rightharpoonup> dict) \<times> nat" where
  "get_all_text_data st k =
     (case st k ''bird_text_search'' 100 of
        Inl e \<Rightarrow> (Map.empty, Suc k)
      | Inr points \<Rightarrow> (fold (\<lambda>p m. m(dict_get p ''bird_id'' \<mapsto> p)) points Map.empty, Suc k))"

text \<open>
  Lines 102-105 (and 122-124 with 130): the list of the id is created when the id is new,
  and the payload is appended to it.
\<close>

definition append_to_group ::
    "(value \<rightharpoonup> dict list) \<Rightarrow> value \<Rightarrow> dict \<Rightarrow> (value \<rightharpoonup> dict list)" where
  "append_to_group m bid p = m(bid \<mapsto> (case m bid of None \<Rightarrow> [] | Some l \<Rightarrow> l) @ [p])"

text \<open>\<^verbatim>\<open>get_all_image_data\<close> (lines 91-109).\<close>

definition get_all_image_data :: "store \<Rightarrow> nat \<Rightarrow> (value \<rightharpoonup> dict list) \<times> nat" where
  "get_all_image_data st k =
     (case st k ''bird_image_search'' 1000 of
        Inl e \<Rightarrow> (Map.empty, Suc k)
      | Inr points \<Rightarrow>
          (fold (\<lambda>p m. append_to_group m (dict_get p ''bird_id'') p) points Map.empty, Suc k))"

text \<open>
  Lines 126-129: the copy of the payload with its \<^verbatim>\<open>audio_url\<close>. A true
  \<^verbatim>\<open>clip_path\<close> that is not a string has no \<^verbatim>\<open>split\<close>. \<open>CHR 0x5C\<close> is the backslash.
  \<^verbatim>\<open>[-1]\<close> is \<open>last\<close>: \<open>str_split\<close> never returns the empty list.
\<close>

definition add_audio_url :: "dict \<Rightarrow> error + dict" where
  "add_audio_url p =
     (if truthy (dict_get p ''clip_path'')
      then (case dict_get p ''clip_path'' of
              VStr s \<Rightarrow>
                (let filename = last (str_split (CHR ''/'') (last (str_split (CHR 0x5C) s)))
                 in Inr (p(''audio_url'' \<mapsto> VStr (''http://localhost:8000/audio/'' @ filename))))
            | _ \<Rightarrow> Inl AttributeError)
      else Inr p)"

text \<open>The loop of lines 121-130; an exception leaves it at once.\<close>

fun audio_loop ::
    "dict list \<Rightarrow> (value \<rightharpoonup> dict list) \<Rightarrow> error + (value \<rightharpoonup> dict list)" where
  "audio_loop [] audio_data = Inr audio_data"
| "audio_loop (p # ps) audio_data =
     (case add_audio_url p of
        Inl e \<Rightarrow> Inl e
      | Inr p' \<Rightarrow> audio_loop ps (append_to_group audio_data (dict_get p ''bird_id'') p'))"

text \<open>
  \<^verbatim>\<open>get_all_audio_data\<close> (lines 111-134): \<^verbatim>\<open>except Exception\<close> also catches what
  the loop raises, and the whole mapping is then empty.
\<close>

definition get_all_audio_data :: "store \<Rightarrow> nat \<Rightarrow> (value \<rightharpoonup> dict list) \<times> nat" where
  "get_all_audio_data st k =
     (case st k ''bird_audio_search'' 1000 of
        Inl e \<Rightarrow> (Map.empty, Suc k)
      | Inr points \<Rightarrow>
          (case audio_loop points Map.empty of
             Inl e \<Rightarrow> (Map.empty, Suc k)
           | Inr audio_data \<Rightarrow> (audio_data, Suc k)))"

text \<open>
  \<^verbatim>\<open>refresh_cache\<close> (lines 218-232): the three globals are assigned one after the
  other, each from its loader; \<^verbatim>\<open>len\<close> of a dict is the number of its keys.
\<close>

record refresh_response =
  message :: string
  count_text :: nat
  count_images :: nat
  count_audio :: nat

definition refresh_cache :: "store \<Rightarrow> caches \<times> nat \<Rightarrow> (caches \<times> nat) \<times> refresh_response" where
  "refresh_cache st s =
     (let (c, k) = s;
          (text_data, k1) = get_all_text_data st k;
          c1 = c\<lparr>ALL_TEXT_DATA := text_data\<rparr>;
          (image_data, k2) = get_all_image_data st k1;
          c2 = c1\<lparr>ALL_IMAGE_DATA := image_data\<rparr>;
          (audio_data, k3) = get_all_audio_data st k2;
          c3 = c2\<lparr>ALL_AUDIO_DATA := audio_data\<rparr>
      in ((c3, k3),
          \<lparr> message = ''Cache refreshed'',
            count_text = card (dom (ALL_TEXT_DATA c3)),
            count_images = card (dom (ALL_IMAGE_DATA c3)),
            count_audio = card (dom (ALL_AUDIO_DATA c3)) \<rparr>))"

section \<open>Deduplication and the search endpoints\<close>

text \<open>
  \<^verbatim>\<open>get_unique_birds_from_results\<close> (lines 389-402), as a loop over the hits with the
  set of seen ids and the list built so far. A result dictionary is never empty, so
  \<^verbatim>\<open>if comprehensive_result\<close> fails on \<^verbatim>\<open>None\<close> only.
\<close>

fun unique_loop ::
    "caches \<Rightarrow> string \<Rightarrow> hit list \<Rightarrow> value set \<Rightarrow> result list \<Rightarrow> error + result list" where
  "unique_loop c search_type [] seen_bird_ids unique_results = Inr unique_results"
| "unique_loop c search_type (h # hs) seen_bird_ids unique_results =
     (let bid = dict_get (payload h) ''bird_id'' in
      if bid \<noteq> VNone \<and> bid \<notin> seen_bird_ids then
        (case create_comprehensive_result c h search_type of
           Inl e \<Rightarrow> Inl e
         | Inr None \<Rightarrow> unique_loop c search_type hs (insert bid seen_bird_ids) unique_results
         | Inr (Some r) \<Rightarrow>
             unique_loop c search_type hs (insert bid seen_bird_ids) (unique_results @ [r]))
      else unique_loop c search_type hs seen_bird_ids unique_results)"

definition get_unique_birds_from_results ::
    "caches \<Rightarrow> hit list \<Rightarrow> string \<Rightarrow> error + result list" where
  "get_unique_birds_from_results c hits search_type = unique_loop c search_type hits {} []"

text \<open>
  The loop of lines 253-257 and 292-296 (text and audio endpoints): every hit is joined,
  and a \<^verbatim>\<open>None\<close> is skipped.
\<close>

fun collect_results ::
    "caches \<Rightarrow> string \<Rightarrow> hit list \<Rightarrow> result list \<Rightarrow> error + result list" where
  "collect_results c search_type [] comprehensive_results = Inr comprehensive_results"
| "collect_results c search_type (h # hs) comprehensive_results =
     (case create_comprehensive_result c h search_type of
        Inl e \<Rightarrow> Inl e
      | Inr None \<Rightarrow> collect_results c search_type hs comprehensive_results
      | Inr (Some r) \<Rightarrow> collect_results c search_type hs (comprehensive_results @ [r]))"

text \<open>\<^verbatim>\<open>xs[:n]\<close> for a Python int \<open>n\<close>: a negative \<open>n\<close> counts from the end.\<close>

definition py_slice_to :: "int \<Rightarrow> 'a list \<Rightarrow> 'a list" where
  "py_slice_to n xs = (if 0 \<le> n then take (nat n) xs else take (nat (int (length xs) + n)) xs)"

record search_response =
  results :: "result list"
  total_found :: nat
  search_type :: string

datatype http_error = HTTPException nat

text \<open>
  The endpoints, from the similarity search on. The parameter \<open>search\<close> stands for the
  extractor and \<^verbatim>\<open>qdrant_client.search\<close> together: from the limit it is called with to
  the hits in the store's order, or an exception. Every exception inside the handler's
  \<^verbatim>\<open>try\<close>, the 400 of the content-type check too, is turned into a 500 by its
  \<^verbatim>\<open>except Exception\<close>.
\<close>

definition search_by_text ::
    "caches \<Rightarrow> (int \<Rightarrow> error + hit list) \<Rightarrow> int \<Rightarrow> http_error + search_response" where
  "search_by_text c search limit =
     (case search limit of
        Inl e \<Rightarrow> Inl (HTTPException 500)
      | Inr hits \<Rightarrow>
          (case collect_results c ''text'' hits [] of
             Inl e \<Rightarrow> Inl (HTTPException 500)
           | Inr rs \<Rightarrow> Inr \<lparr> results = rs, total_found = length rs, search_type = ''text'' \<rparr>))"

definition search_by_audio ::
    "caches \<Rightarrow> string \<Rightarrow> (int \<Rightarrow> error + hit list) \<Rightarrow> int \<Rightarrow> http_error + search_response" where
  "search_by_audio c content_type search limit =
     (if \<not> prefix ''audio/'' content_type then Inl (HTTPException 500)
      else
        (case search limit of
           Inl e \<Rightarrow> Inl (HTTPException 500)
         | Inr hits \<Rightarrow>
             (case collect_results c ''audio'' hits [] of
                Inl e \<Rightarrow> Inl (HTTPException 500)
              | Inr rs \<Rightarrow> Inr \<lparr> results = rs, total_found = length rs, search_type = ''audio'' \<rparr>)))"

definition search_by_image ::
    "caches \<Rightarrow> string \<Rightarrow> (int \<Rightarrow> error + hit list) \<Rightarrow> int \<Rightarrow> http_error + search_response" where
  "search_by_image c content_type search limit =
     (if \<not> prefix ''image/'' content_type then Inl (HTTPException 500)
      else
        (case search (limit * 5) of
           Inl e \<Rightarrow> Inl (HTTPException 500)
         | Inr hits \<Rightarrow>
             (case get_unique_birds_from_results c hits ''image'' of
                Inl e \<Rightarrow> Inl (HTTPException 500)
              | Inr rs \<Rightarrow>
                  (let comprehensive_results = py_slice_to limit rs
                   in Inr \<lparr> results = comprehensive_results,
                            total_found = length comprehensive_results,
                            search_type = ''image'' \<rparr>))))"

section \<open>Notions of the specification\<close>

text \<open>
  The final segment of a path, in the specification's words: what follows the last
  separator, a backslash or a forward slash (the whole path when it has none).
\<close>

definition final_segment :: "string \<Rightarrow> string" where
  "final_segment path = rev (takeWhile (\<lambda>c. c \<noteq> CHR 0x5C \<and> c \<noteq> CHR ''/'') (rev path))"

text \<open>The entity id of a hit: what \<^verbatim>\<open>result.payload.get("bird_id")\<close> returns.\<close>

definition hit_id :: "hit \<Rightarrow> value" where
  "hit_id h = dict_get (payload h) ''bird_id''"

text \<open>
  The first occurrences of a list, in order: \<open>remdups\<close> keeps the last occurrence of each
  element, so it is applied to the reversed list.
\<close>

definition first_occurrences :: "'a list \<Rightarrow> 'a list" where
  "first_occurrences xs = rev (remdups (rev xs))"

section \<open>Properties of the join\<close>

lemma create_None_iff:
  "create_comprehensive_result c h t = Inr None \<longleftrightarrow> dict_get (payload h) ''bird_id'' = VNone"
  by (simp add: create_comprehensive_result_def Let_def split: sum.splits)

lemma create_SomeD:
  assumes "create_comprehensive_result c h t = Inr (Some r)"
  shows "dict_get (payload h) ''bird_id'' \<noteq> VNone"
    and "bird_id r = dict_get (payload h) ''bird_id''"
    and "species_name r =
           py_or (dict_get (payload h) ''species_name'')
             (dict_get_default (cache_get (ALL_TEXT_DATA c) (bird_id r) Map.empty)
                ''species_name'' (VStr ''Unknown''))"
    and "scientific_name r =
           dict_get_default (cache_get (ALL_TEXT_DATA c) (bird_id r) Map.empty)
             ''scientific_name'' (VStr '''')"
    and "family r =
           dict_get_default (cache_get (ALL_TEXT_DATA c) (bird_id r) Map.empty) ''family'' (VStr '''')"
    and "confidence_score r = score h"
    and "wikipedia_url (cache_get (ALL_TEXT_DATA c) (bird_id r) Map.empty) = Inr (url r)"
    and "images r = cache_get (ALL_IMAGE_DATA c) (bird_id r) []"
    and "primary_image r = first_or_none (images r)"
    and "audio_clips r = cache_get (ALL_AUDIO_DATA c) (bird_id r) []"
    and "primary_audio r = first_or_none (audio_clips r)"
proof -
  let ?b = "dict_get (payload h) ''bird_id''"
  show nn: "?b \<noteq> VNone"
    using assms by (auto simp: create_comprehensive_result_def)
  obtain u where u: "wikipedia_url (cache_get (ALL_TEXT_DATA c) ?b Map.empty) = Inr u"
    using assms nn
    by (cases "wikipedia_url (cache_get (ALL_TEXT_DATA c) ?b Map.empty)")
       (simp_all add: create_comprehensive_result_def Let_def)
  have r: "r = \<lparr>
                bird_id = ?b,
                species_name = py_or (dict_get (payload h) ''species_name'')
                                     (dict_get_default (cache_get (ALL_TEXT_DATA c) ?b Map.empty) ''species_name'' (VStr ''Unknown'')),
                scientific_name = dict_get_default (cache_get (ALL_TEXT_DATA c) ?b Map.empty) ''scientific_name'' (VStr ''''),
                family = dict_get_default (cache_get (ALL_TEXT_DATA c) ?b Map.empty) ''family'' (VStr ''''),
                confidence_score = score h,
                search_match_type = t,
                text_description = dict_get_default (cache_get (ALL_TEXT_DATA c) ?b Map.empty) ''searchable_text'' (VStr ''''),
                raw_text_data = (cache_get (ALL_TEXT_DATA c) ?b Map.empty),
                habitats = '''',
                geographic_regions = '''',
                size_field = dict_get_default (cache_get (ALL_TEXT_DATA c) ?b Map.empty) ''size'' (VStr ''''),
                ecology = '''',
                group_dynamics = '''',
                extract_field = '''',
                url = u,
                images = cache_get (ALL_IMAGE_DATA c) ?b [],
                primary_image = first_or_none (cache_get (ALL_IMAGE_DATA c) ?b []),
                audio_clips = cache_get (ALL_AUDIO_DATA c) ?b [],
                primary_audio = first_or_none (cache_get (ALL_AUDIO_DATA c) ?b []) \<rparr>"
    using assms nn u by (simp add: create_comprehensive_result_def Let_def)
  show "bird_id r = ?b" by (simp add: r)
  show "species_name r =
           py_or (dict_get (payload h) ''species_name'')
             (dict_get_default (cache_get (ALL_TEXT_DATA c) (bird_id r) Map.empty)
                ''species_name'' (VStr ''Unknown''))" by (simp add: r)
  show "scientific_name r =
           dict_get_default (cache_get (ALL_TEXT_DATA c) (bird_id r) Map.empty)
             ''scientific_name'' (VStr '''')" by (simp add: r)
  show "family r =
           dict_get_default (cache_get (ALL_TEXT_DATA c) (bird_id r) Map.empty) ''family'' (VStr '''')"
    by (simp add: r)
  show "confidence_score r = score h" by (simp add: r)
  show "wikipedia_url (cache_get (ALL_TEXT_DATA c) (bird_id r) Map.empty) = Inr (url r)"
    by (simp add: r u)
  show "images r = cache_get (ALL_IMAGE_DATA c) (bird_id r) []" by (simp add: r)
  show "primary_image r = first_or_none (images r)" by (simp add: r)
  show "audio_clips r = cache_get (ALL_AUDIO_DATA c) (bird_id r) []" by (simp add: r)
  show "primary_audio r = first_or_none (audio_clips r)" by (simp add: r)
qed

lemma create_Some_ex:
  assumes "dict_get (payload h) ''bird_id'' \<noteq> VNone"
    and "wikipedia_url (cache_get (ALL_TEXT_DATA c) (dict_get (payload h) ''bird_id'') Map.empty) = Inr u"
  shows "\<exists>r. create_comprehensive_result c h t = Inr (Some r)"
  using assms by (simp add: create_comprehensive_result_def Let_def)

lemma wikipedia_url_empty: "wikipedia_url Map.empty = Inr ''''"
  by (simp add: wikipedia_url_def dict_get_def)

subsection \<open>The join: null results and defaults\<close>

text \<open>
  Claim C1. For every hit, \<^verbatim>\<open>create_comprehensive_result\<close> returns \<^verbatim>\<open>None\<close> exactly
  when the payload has no entity id (the key \<^verbatim>\<open>bird_id\<close> is missing or holds
  \<^verbatim>\<open>None\<close>). For every hit whose id is not a key of the text cache, it raises nothing
  and returns a result whose scientific name and family are the empty string and whose
  species name is the payload's when that is true, and \<^verbatim>\<open>"Unknown"\<close> when the payload
  carries no species name.
\<close>

theorem join_null_iff_no_id:
  "(create_comprehensive_result c h t = Inr None
      \<longleftrightarrow> (payload h ''bird_id'' = None \<or> payload h ''bird_id'' = Some VNone))
   \<and> (\<forall>b. payload h ''bird_id'' = Some b \<and> b \<noteq> VNone \<and> ALL_TEXT_DATA c b = None
        \<longrightarrow> (\<exists>r. create_comprehensive_result c h t = Inr (Some r)
                \<and> species_name r =
                    (if truthy (dict_get (payload h) ''species_name'')
                     then dict_get (payload h) ''species_name'' else VStr ''Unknown'')
                \<and> scientific_name r = VStr '''' \<and> family r = VStr ''''))"
proof (intro conjI allI impI)
  show "create_comprehensive_result c h t = Inr None
      \<longleftrightarrow> (payload h ''bird_id'' = None \<or> payload h ''bird_id'' = Some VNone)"
    by (auto simp: create_None_iff dict_get_def split: option.splits)
next
  fix b
  assume a: "payload h ''bird_id'' = Some b \<and> b \<noteq> VNone \<and> ALL_TEXT_DATA c b = None"
  then have b: "dict_get (payload h) ''bird_id'' = b" and nn: "b \<noteq> VNone"
    and ti: "cache_get (ALL_TEXT_DATA c) b Map.empty = Map.empty"
    by (simp_all add: dict_get_def cache_get_def)
  obtain r where r: "create_comprehensive_result c h t = Inr (Some r)"
    using create_Some_ex [of h c "''''" t] b nn ti wikipedia_url_empty by auto
  have id: "bird_id r = b"
    using create_SomeD(2) [OF r] b by simp
  have "species_name r =
          (if truthy (dict_get (payload h) ''species_name'')
           then dict_get (payload h) ''species_name'' else VStr ''Unknown'')"
    using create_SomeD(3) [OF r] by (simp add: id ti py_or_def dict_get_default_def)
  moreover have "scientific_name r = VStr ''''"
    using create_SomeD(4) [OF r] by (simp add: id ti dict_get_default_def)
  moreover have "family r = VStr ''''"
    using create_SomeD(5) [OF r] by (simp add: id ti dict_get_default_def)
  ultimately show "\<exists>r. create_comprehensive_result c h t = Inr (Some r)
                \<and> species_name r =
                    (if truthy (dict_get (payload h) ''species_name'')
                     then dict_get (payload h) ''species_name'' else VStr ''Unknown'')
                \<and> scientific_name r = VStr '''' \<and> family r = VStr ''''"
    using r by blast
qed

theorem join_null_iff_no_id_witness:
  "create_comprehensive_result
       \<lparr> ALL_TEXT_DATA = Map.empty, ALL_IMAGE_DATA = Map.empty, ALL_AUDIO_DATA = Map.empty \<rparr>
       \<lparr> payload = [''bird_id'' \<mapsto> VNum 7], score = 1/2 \<rparr> ''image'' \<noteq> Inr None
   \<and> (\<exists>r. create_comprehensive_result
       \<lparr> ALL_TEXT_DATA = Map.empty, ALL_IMAGE_DATA = Map.empty, ALL_AUDIO_DATA = Map.empty \<rparr>
       \<lparr> payload = [''bird_id'' \<mapsto> VNum 7], score = 1/2 \<rparr> ''image'' = Inr (Some r)
        \<and> species_name r = VStr ''Unknown''
        \<and> scientific_name r = VStr '''' \<and> family r = VStr '''')
   \<and> create_comprehensive_result
       \<lparr> ALL_TEXT_DATA = Map.empty, ALL_IMAGE_DATA = Map.empty, ALL_AUDIO_DATA = Map.empty \<rparr>
       \<lparr> payload = [''species_name'' \<mapsto> VStr ''Robin''], score = 1/2 \<rparr> ''image'' = Inr None"
  using join_null_iff_no_id [of
       "\<lparr> ALL_TEXT_DATA = Map.empty, ALL_IMAGE_DATA = Map.empty, ALL_AUDIO_DATA = Map.empty \<rparr>"
       "\<lparr> payload = [''bird_id'' \<mapsto> VNum 7], score = 1/2 \<rparr>" "''image''"]
    join_null_iff_no_id [of
       "\<lparr> ALL_TEXT_DATA = Map.empty, ALL_IMAGE_DATA = Map.empty, ALL_AUDIO_DATA = Map.empty \<rparr>"
       "\<lparr> payload = [''species_name'' \<mapsto> VStr ''Robin''], score = 1/2 \<rparr>" "''image''"]
  by (simp add: dict_get_def)

subsection \<open>Primary image and primary audio\<close>

text \<open>
  Claim C8. In every joined result the image list is the entity's cached list as stored
  (empty when the id is not a key of the image cache), and \<^verbatim>\<open>primary_image\<close> is its
  first element, or \<^verbatim>\<open>None\<close> when the list is empty; the same holds for the audio
  clips. The list is taken as it is: no field of its records is looked at, so it is not
  sorted by quality or score.
\<close>

theorem primary_is_first_cached:
  assumes "create_comprehensive_result c h t = Inr (Some r)"
  shows "images r = (case ALL_IMAGE_DATA c (bird_id r) of None \<Rightarrow> [] | Some l \<Rightarrow> l)
       \<and> primary_image r = (case images r of [] \<Rightarrow> None | x # _ \<Rightarrow> Some x)
       \<and> audio_clips r = (case ALL_AUDIO_DATA c (bird_id r) of None \<Rightarrow> [] | Some l \<Rightarrow> l)
       \<and> primary_audio r = (case audio_clips r of [] \<Rightarrow> None | x # _ \<Rightarrow> Some x)"
  using create_SomeD(8-11) [OF assms]
  by (simp add: cache_get_def first_or_none_def)

theorem primary_is_first_cached_witness:
  "\<exists>r. create_comprehensive_result
         \<lparr> ALL_TEXT_DATA = Map.empty,
           ALL_IMAGE_DATA = [VNum 1 \<mapsto> [[''bird_id'' \<mapsto> VNum 1, ''quality_score'' \<mapsto> VNum (1/5)],
                                      [''bird_id'' \<mapsto> VNum 1, ''quality_score'' \<mapsto> VNum (9/10)]]],
           ALL_AUDIO_DATA = Map.empty \<rparr>
         \<lparr> payload = [''bird_id'' \<mapsto> VNum 1], score = 1/2 \<rparr> ''image'' = Inr (Some r)
     \<and> primary_image r = Some [''bird_id'' \<mapsto> VNum 1, ''quality_score'' \<mapsto> VNum (1/5)]
     \<and> length (images r) = 2
     \<and> audio_clips r = []
     \<and> primary_audio r = None"
proof -
  let ?c = "\<lparr> ALL_TEXT_DATA = Map.empty,
           ALL_IMAGE_DATA = [VNum 1 \<mapsto> [[''bird_id'' \<mapsto> VNum 1, ''quality_score'' \<mapsto> VNum (1/5)],
                                      [''bird_id'' \<mapsto> VNum 1, ''quality_score'' \<mapsto> VNum (9/10)]]],
           ALL_AUDIO_DATA = Map.empty \<rparr>"
  let ?h = "\<lparr> payload = [''bird_id'' \<mapsto> VNum 1], score = 1/2 \<rparr>"
  obtain r where r: "create_comprehensive_result ?c ?h ''image'' = Inr (Some r)"
    using create_Some_ex [of ?h ?c "''''" "''image''"]
    by (auto simp: dict_get_def cache_get_def wikipedia_url_empty)
  have id: "bird_id r = VNum 1"
    using create_SomeD(2) [OF r] by (simp add: dict_get_def)
  show ?thesis
    using r primary_is_first_cached [OF r] by (simp add: id)
qed

subsection \<open>An empty species name in the payload\<close>

text \<open>
  Claim C9. A hit whose payload holds the empty string under \<^verbatim>\<open>species_name\<close> is
  joined exactly as the same hit without that key: the two calls return the same value.
  The species name of the result is then the cached text record's value, and
  \<^verbatim>\<open>"Unknown"\<close> when the id is not in the text cache or its record has no such key.
\<close>

theorem empty_species_name_as_missing:
  "create_comprehensive_result c (h\<lparr>payload := (payload h)(''species_name'' \<mapsto> VStr '''')\<rparr>) t
     = create_comprehensive_result c (h\<lparr>payload := (payload h)(''species_name'' := None)\<rparr>) t
   \<and> (\<forall>r. create_comprehensive_result c (h\<lparr>payload := (payload h)(''species_name'' \<mapsto> VStr '''')\<rparr>) t
             = Inr (Some r)
        \<longrightarrow> species_name r =
              (case ALL_TEXT_DATA c (bird_id r) of
                 None \<Rightarrow> VStr ''Unknown''
               | Some text_info \<Rightarrow>
                   (case text_info ''species_name'' of
                      None \<Rightarrow> VStr ''Unknown'' | Some v \<Rightarrow> v)))"
proof (intro conjI allI impI)
  have "py_or (VStr '''') d = py_or VNone d" for d
    by (simp add: py_or_def)
  then show "create_comprehensive_result c (h\<lparr>payload := (payload h)(''species_name'' \<mapsto> VStr '''')\<rparr>) t
     = create_comprehensive_result c (h\<lparr>payload := (payload h)(''species_name'' := None)\<rparr>) t"
    by (simp add: create_comprehensive_result_def Let_def dict_get_def py_or_def split: sum.splits)
next
  fix r
  assume r: "create_comprehensive_result c (h\<lparr>payload := (payload h)(''species_name'' \<mapsto> VStr '''')\<rparr>) t
             = Inr (Some r)"
  show "species_name r =
              (case ALL_TEXT_DATA c (bird_id r) of
                 None \<Rightarrow> VStr ''Unknown''
               | Some text_info \<Rightarrow>
                   (case text_info ''species_name'' of
                      None \<Rightarrow> VStr ''Unknown'' | Some v \<Rightarrow> v))"
    using create_SomeD(3) [OF r]
    by (simp add: py_or_def dict_get_def dict_get_default_def cache_get_def split: option.splits)
qed

theorem empty_species_name_as_missing_witness:
  "(\<exists>r. create_comprehensive_result
        \<lparr> ALL_TEXT_DATA = [VNum 2 \<mapsto> [''bird_id'' \<mapsto> VNum 2, ''species_name'' \<mapsto> VStr ''Robin'']],
          ALL_IMAGE_DATA = Map.empty, ALL_AUDIO_DATA = Map.empty \<rparr>
        (\<lparr> payload = [''bird_id'' \<mapsto> VNum 2], score = 1/2 \<rparr>
           \<lparr> payload := [''bird_id'' \<mapsto> VNum 2, ''species_name'' \<mapsto> VStr ''''] \<rparr>) ''audio''
        = Inr (Some r) \<and> species_name r = VStr ''Robin'')
   \<and> (\<exists>r. create_comprehensive_result
        \<lparr> ALL_TEXT_DATA = Map.empty, ALL_IMAGE_DATA = Map.empty, ALL_AUDIO_DATA = Map.empty \<rparr>
        (\<lparr> payload = [''bird_id'' \<mapsto> VNum 2], score = 1/2 \<rparr>
           \<lparr> payload := [''bird_id'' \<mapsto> VNum 2, ''species_name'' \<mapsto> VStr ''''] \<rparr>) ''audio''
        = Inr (Some r) \<and> species_name r = VStr ''Unknown'')"
proof -
  let ?c1 = "\<lparr> ALL_TEXT_DATA = [VNum 2 \<mapsto> [''bird_id'' \<mapsto> VNum 2, ''species_name'' \<mapsto> VStr ''Robin'']],
          ALL_IMAGE_DATA = Map.empty, ALL_AUDIO_DATA = Map.empty \<rparr>"
  let ?c2 = "\<lparr> ALL_TEXT_DATA = Map.empty, ALL_IMAGE_DATA = Map.empty, ALL_AUDIO_DATA = Map.empty \<rparr>"
  let ?h = "\<lparr> payload = [''bird_id'' \<mapsto> VNum 2], score = 1/2 \<rparr>"
  let ?h' = "?h\<lparr> payload := (payload ?h)(''species_name'' \<mapsto> VStr '''') \<rparr>"
  obtain r1 where r1: "create_comprehensive_result ?c1 ?h' ''audio'' = Inr (Some r1)"
    by (simp add: create_comprehensive_result_def Let_def dict_get_def dict_get_default_def
          cache_get_def wikipedia_url_def)
  obtain r2 where r2: "create_comprehensive_result ?c2 ?h' ''audio'' = Inr (Some r2)"
    by (simp add: create_comprehensive_result_def Let_def dict_get_def dict_get_default_def
          cache_get_def wikipedia_url_def)
  have id1: "bird_id r1 = VNum 2" using create_SomeD(2) [OF r1] by (simp add: dict_get_def)
  have id2: "bird_id r2 = VNum 2" using create_SomeD(2) [OF r2] by (simp add: dict_get_def)
  have "species_name r1 = VStr ''Robin''"
    using empty_species_name_as_missing [of ?c1 ?h "''audio''"] r1 by (simp add: id1)
  moreover have "species_name r2 = VStr ''Unknown''"
    using empty_species_name_as_missing [of ?c2 ?h "''audio''"] r2 by (simp add: id2)
  ultimately show ?thesis using r1 r2 by simp
qed

subsection \<open>The URL of a result\<close>

lemma wikipedia_url_InrD:
  assumes "wikipedia_url ti = Inr u"
  shows "u = (case ti ''species_name'' of
                Some (VStr s) \<Rightarrow>
                  (if s = [] then ''''
                   else ''https://en.wikipedia.org/wiki/'' @ str_replace (CHR '' '') (CHR ''_'') s)
              | _ \<Rightarrow> '''')"
proof (cases "ti ''species_name''")
  case None
  then show ?thesis using assms by (simp add: wikipedia_url_def dict_get_def)
next
  case (Some v)
  then show ?thesis
    using assms
    by (cases v) (auto simp: wikipedia_url_def dict_get_def dict_get_default_def split: if_splits)
qed

text \<open>
  Claim C10. The \<^verbatim>\<open>url\<close> of a joined result is a function of the cached text record
  alone: the Wikipedia base URL followed by the record's species name with spaces
  replaced by underscores, and the empty string when the id is not in the text cache (or
  the record's species name is missing or false), whatever the hit's own payload says.
\<close>

theorem url_from_text_cache_only:
  assumes "create_comprehensive_result c h t = Inr (Some r)"
  shows "url r =
           (case ALL_TEXT_DATA c (bird_id r) of
              None \<Rightarrow> ''''
            | Some text_info \<Rightarrow>
                (case text_info ''species_name'' of
                   Some (VStr s) \<Rightarrow>
                     (if s = [] then ''''
                      else ''https://en.wikipedia.org/wiki/'' @ str_replace (CHR '' '') (CHR ''_'') s)
                 | _ \<Rightarrow> ''''))"
proof (cases "ALL_TEXT_DATA c (bird_id r)")
  case None
  then show ?thesis
    using wikipedia_url_InrD [OF create_SomeD(7) [OF assms]] by (simp add: cache_get_def)
next
  case (Some ti)
  then show ?thesis
    using wikipedia_url_InrD [OF create_SomeD(7) [OF assms]] by (simp add: cache_get_def)
qed

theorem url_from_text_cache_only_witness:
  "(\<exists>r. create_comprehensive_result
        \<lparr> ALL_TEXT_DATA = Map.empty, ALL_IMAGE_DATA = Map.empty, ALL_AUDIO_DATA = Map.empty \<rparr>
        \<lparr> payload = [''bird_id'' \<mapsto> VNum 3, ''species_name'' \<mapsto> VStr ''Blue Jay''], score = 1/2 \<rparr>
        ''image'' = Inr (Some r)
      \<and> species_name r = VStr ''Blue Jay'' \<and> url r = '''')
   \<and> (\<exists>r. create_comprehensive_result
        \<lparr> ALL_TEXT_DATA = [VNum 3 \<mapsto> [''bird_id'' \<mapsto> VNum 3, ''species_name'' \<mapsto> VStr ''Blue Jay'']],
          ALL_IMAGE_DATA = Map.empty, ALL_AUDIO_DATA = Map.empty \<rparr>
        \<lparr> payload = [''bird_id'' \<mapsto> VNum 3], score = 1/2 \<rparr>
        ''image'' = Inr (Some r)
      \<and> url r = ''https://en.wikipedia.org/wiki/Blue_Jay'')"
proof -
  let ?c1 = "\<lparr> ALL_TEXT_DATA = Map.empty, ALL_IMAGE_DATA = Map.empty, ALL_AUDIO_DATA = Map.empty \<rparr>"
  let ?h1 = "\<lparr> payload = [''bird_id'' \<mapsto> VNum 3, ''species_name'' \<mapsto> VStr ''Blue Jay''], score = 1/2 \<rparr>"
  let ?c2 = "\<lparr> ALL_TEXT_DATA = [VNum 3 \<mapsto> [''bird_id'' \<mapsto> VNum 3, ''species_name'' \<mapsto> VStr ''Blue Jay'']],
          ALL_IMAGE_DATA = Map.empty, ALL_AUDIO_DATA = Map.empty \<rparr>"
  let ?h2 = "\<lparr> payload = [''bird_id'' \<mapsto> VNum 3], score = 1/2 \<rparr>"
  obtain r1 where r1: "create_comprehensive_result ?c1 ?h1 ''image'' = Inr (Some r1)"
    by (simp add: create_comprehensive_result_def Let_def dict_get_def dict_get_default_def
          cache_get_def wikipedia_url_def)
  obtain r2 where r2: "create_comprehensive_result ?c2 ?h2 ''image'' = Inr (Some r2)"
    by (simp add: create_comprehensive_result_def Let_def dict_get_def dict_get_default_def
          cache_get_def wikipedia_url_def)
  have id1: "bird_id r1 = VNum 3" using create_SomeD(2) [OF r1] by (simp add: dict_get_def)
  have id2: "bird_id r2 = VNum 3" using create_SomeD(2) [OF r2] by (simp add: dict_get_def)
  have sn: "species_name r1 = VStr ''Blue Jay''"
    using create_SomeD(3) [OF r1] by (simp add: dict_get_def py_or_def)
  have "url r1 = ''''"
    using url_from_text_cache_only [OF r1] by (simp add: id1)
  moreover have "url r2 = ''https://en.wikipedia.org/wiki/Blue_Jay''"
    using url_from_text_cache_only [OF r2] by (simp add: id2 str_replace_def)
  ultimately show ?thesis using r1 r2 sn by simp
qed

section \<open>The playback URL of an audio record\<close>

lemma split_from_not_Nil: "split_from sep cur s \<noteq> []"
  by (induction s arbitrary: cur) auto

lemma str_split_not_Nil: "str_split sep s \<noteq> []"
  by (simp add: str_split_def split_from_not_Nil)

lemma last_split_from:
  "last (split_from sep cur s) =
     (if sep \<in> set s then rev (takeWhile (\<lambda>c. c \<noteq> sep) (rev s)) else cur @ s)"
proof (induction s arbitrary: cur)
  case Nil
  then show ?case by simp
next
  case (Cons c cs)
  show ?case
  proof (cases "c = sep")
    case True
    then show ?thesis
      using Cons.IH [of "[]"] by (auto simp: split_from_not_Nil takeWhile_append)
  next
    case False
    then show ?thesis
      using Cons.IH [of "cur @ [c]"] by (auto simp: takeWhile_append)
  qed
qed

lemma last_str_split:
  "last (str_split sep s) = rev (takeWhile (\<lambda>c. c \<noteq> sep) (rev s))"
proof (cases "sep \<in> set s")
  case True
  then show ?thesis by (simp add: str_split_def last_split_from)
next
  case False
  then have tw: "takeWhile (\<lambda>c. c \<noteq> sep) (rev s) = rev s"
    by (auto simp: takeWhile_eq_all_conv)
  have "last (str_split sep s) = s"
    using False by (simp add: str_split_def last_split_from)
  also have "s = rev (takeWhile (\<lambda>c. c \<noteq> sep) (rev s))"
    by (simp only: tw rev_rev_ident)
  finally show ?thesis .
qed

lemma takeWhile_twice:
  "takeWhile P (takeWhile Q xs) = takeWhile (\<lambda>x. Q x \<and> P x) xs"
  by (induction xs) auto

lemma filename_final_segment:
  "last (str_split (CHR ''/'') (last (str_split (CHR 0x5C) s))) = final_segment s"
  by (simp add: last_str_split final_segment_def takeWhile_twice)

text \<open>
  The copy made by lines 126-129 of a record whose \<^verbatim>\<open>clip_path\<close> is a non-empty string,
  and the records for which these lines raise nothing.
\<close>

lemma add_audio_url_final_segment:
  assumes "p ''clip_path'' = Some (VStr path)" and "path \<noteq> []"
  shows "add_audio_url p =
           Inr (p(''audio_url'' \<mapsto> VStr (''http://localhost:8000/audio/'' @ final_segment path)))"
  using assms by (simp add: add_audio_url_def dict_get_def filename_final_segment)

lemma add_audio_url_returns:
  assumes "\<forall>x. q ''clip_path'' = Some (VNum x) \<longrightarrow> x = 0"
  shows "\<exists>q'. add_audio_url q = Inr q'"
proof (cases "q ''clip_path''")
  case None
  then show ?thesis by (simp add: add_audio_url_def dict_get_def)
next
  case (Some v)
  then show ?thesis
    using assms by (cases v) (simp_all add: add_audio_url_def dict_get_def)
qed

text \<open>
  The loop of the loader: every record it stores is the copy of a point of the page, under
  the point's id, and when it returns every point's copy is stored under the point's id.
\<close>

lemma append_to_group_lookup:
  "append_to_group m b p b' =
     (if b' = b then Some ((case m b of None \<Rightarrow> [] | Some l \<Rightarrow> l) @ [p]) else m b')"
  by (simp add: append_to_group_def)

lemma audio_loop_records:
  assumes "audio_loop ps m = Inr m'" and "m' b = Some l" and "r \<in> set l"
  shows "(\<exists>l0. m b = Some l0 \<and> r \<in> set l0)
       \<or> (\<exists>p \<in> set ps. dict_get p ''bird_id'' = b \<and> add_audio_url p = Inr r)"
  using assms
proof (induction ps arbitrary: m)
  case Nil
  then show ?case by simp
next
  case (Cons p ps)
  from Cons.prems(1) obtain p' where
    p': "add_audio_url p = Inr p'" and
    rest: "audio_loop ps (append_to_group m (dict_get p ''bird_id'') p') = Inr m'"
    by (auto split: sum.splits)
  from Cons.IH [OF rest Cons.prems(2,3)]
  show ?case
  proof
    assume "\<exists>l0. append_to_group m (dict_get p ''bird_id'') p' b = Some l0 \<and> r \<in> set l0"
    then show ?thesis
      using p' by (auto simp: append_to_group_lookup split: if_splits option.splits)
  next
    assume "\<exists>q \<in> set ps. dict_get q ''bird_id'' = b \<and> add_audio_url q = Inr r"
    then show ?thesis by auto
  qed
qed

lemma audio_cache_records:
  assumes "fst (get_all_audio_data st k) b = Some l" and "r \<in> set l"
  shows "\<exists>points p. st k ''bird_audio_search'' 1000 = Inr points \<and> p \<in> set points
           \<and> dict_get p ''bird_id'' = b \<and> add_audio_url p = Inr r"
proof -
  from assms(1) obtain points m where
    pts: "st k ''bird_audio_search'' 1000 = Inr points" and
    loop: "audio_loop points Map.empty = Inr m" and
    m: "m b = Some l"
    by (auto simp: get_all_audio_data_def split: sum.splits)
  from audio_loop_records [OF loop m assms(2)] pts show ?thesis by auto
qed

lemma audio_loop_returns:
  assumes "\<forall>q \<in> set ps. \<exists>q'. add_audio_url q = Inr q'"
  shows "\<exists>m'. audio_loop ps m = Inr m'"
  using assms
proof (induction ps arbitrary: m)
  case Nil
  then show ?case by simp
next
  case (Cons p ps)
  then obtain p' where p': "add_audio_url p = Inr p'" by auto
  from Cons have "\<exists>m'. audio_loop ps (append_to_group m (dict_get p ''bird_id'') p') = Inr m'"
    by simp
  then show ?case by (simp add: p')
qed

lemma audio_loop_keeps:
  assumes "audio_loop ps m = Inr m'" and "m b = Some l0" and "r \<in> set l0"
  shows "\<exists>l. m' b = Some l \<and> r \<in> set l"
  using assms
proof (induction ps arbitrary: m l0)
  case Nil
  then show ?case by simp
next
  case (Cons p ps)
  from Cons.prems(1) obtain p' where
    p': "add_audio_url p = Inr p'" and
    rest: "audio_loop ps (append_to_group m (dict_get p ''bird_id'') p') = Inr m'"
    by (auto split: sum.splits)
  have "\<exists>l1. append_to_group m (dict_get p ''bird_id'') p' b = Some l1 \<and> r \<in> set l1"
    using Cons.prems(2,3) by (auto simp: append_to_group_lookup)
  then obtain l1 where "append_to_group m (dict_get p ''bird_id'') p' b = Some l1" "r \<in> set l1"
    by auto
  from Cons.IH [OF rest this] show ?case .
qed

lemma audio_loop_contains:
  assumes "audio_loop ps m = Inr m'" and "p \<in> set ps" and "add_audio_url p = Inr p'"
  shows "\<exists>l. m' (dict_get p ''bird_id'') = Some l \<and> p' \<in> set l"
  using assms
proof (induction ps arbitrary: m)
  case Nil
  then show ?case by simp
next
  case (Cons q qs)
  from Cons.prems(1) obtain q' where
    q': "add_audio_url q = Inr q'" and
    rest: "audio_loop qs (append_to_group m (dict_get q ''bird_id'') q') = Inr m'"
    by (auto split: sum.splits)
  show ?case
  proof (cases "p = q")
    case True
    then have "q' = p'" using q' Cons.prems(3) by simp
    then have "\<exists>l1. append_to_group m (dict_get q ''bird_id'') q' (dict_get p ''bird_id'') = Some l1
                 \<and> p' \<in> set l1"
      using True by (simp add: append_to_group_lookup)
    then obtain l1 where
      "append_to_group m (dict_get q ''bird_id'') q' (dict_get p ''bird_id'') = Some l1" "p' \<in> set l1"
      by auto
    from audio_loop_keeps [OF rest this] show ?thesis .
  next
    case False
    with Cons.prems(2) have "p \<in> set qs" by simp
    from Cons.IH [OF rest this Cons.prems(3)] show ?thesis .
  qed
qed

text \<open>
  Claim C7. Let the scroll of the audio collection return a page in which no
  \<^verbatim>\<open>clip_path\<close> is a non-zero number (on such a page line 128 raises and the loader
  returns the empty mapping). Then for every record of the page whose \<^verbatim>\<open>clip_path\<close>
  is a non-empty string, the cache built by \<^verbatim>\<open>get_all_audio_data\<close> holds, under the
  record's id, the record with the \<^verbatim>\<open>audio_url\<close> made of the audio base URL and the
  final segment of the path, where a backslash and a forward slash both separate
  segments. Conversely every record of the cache comes from a record of the page with
  its id, and carries that URL when the stored path is a non-empty string.
\<close>

theorem audio_cache_url_final_segment:
  assumes "st k ''bird_audio_search'' 1000 = Inr points"
    and "\<forall>q \<in> set points. \<forall>x. q ''clip_path'' = Some (VNum x) \<longrightarrow> x = 0"
  shows "(\<forall>p path. p \<in> set points \<and> p ''clip_path'' = Some (VStr path) \<and> path \<noteq> [] \<longrightarrow>
            (\<exists>l. fst (get_all_audio_data st k) (dict_get p ''bird_id'') = Some l
               \<and> p(''audio_url'' \<mapsto> VStr (''http://localhost:8000/audio/'' @ final_segment path))
                   \<in> set l))
       \<and> (\<forall>b l r. fst (get_all_audio_data st k) b = Some l \<and> r \<in> set l \<longrightarrow>
            (\<exists>p \<in> set points. dict_get p ''bird_id'' = b
               \<and> (\<forall>path. p ''clip_path'' = Some (VStr path) \<and> path \<noteq> [] \<longrightarrow>
                     r = p(''audio_url'' \<mapsto>
                             VStr (''http://localhost:8000/audio/'' @ final_segment path)))))"
proof (intro conjI allI impI)
  fix p path
  assume a: "p \<in> set points \<and> p ''clip_path'' = Some (VStr path) \<and> path \<noteq> []"
  have "\<forall>q \<in> set points. \<exists>q'. add_audio_url q = Inr q'"
    using assms(2) add_audio_url_returns by blast
  then obtain m where m: "audio_loop points Map.empty = Inr m"
    using audio_loop_returns by blast
  have cache: "fst (get_all_audio_data st k) = m"
    by (simp add: get_all_audio_data_def assms(1) m)
  have url: "add_audio_url p =
           Inr (p(''audio_url'' \<mapsto> VStr (''http://localhost:8000/audio/'' @ final_segment path)))"
    using a by (simp add: add_audio_url_final_segment)
  from audio_loop_contains [OF m _ url] a
  show "\<exists>l. fst (get_all_audio_data st k) (dict_get p ''bird_id'') = Some l
               \<and> p(''audio_url'' \<mapsto> VStr (''http://localhost:8000/audio/'' @ final_segment path))
                   \<in> set l"
    by (simp add: cache)
next
  fix b l r
  assume a: "fst (get_all_audio_data st k) b = Some l \<and> r \<in> set l"
  then obtain points' p where
    pts: "st k ''bird_audio_search'' 1000 = Inr points'" and
    p: "p \<in> set points'" "dict_get p ''bird_id'' = b" "add_audio_url p = Inr r"
    using audio_cache_records [of st k b l r] by blast
  from pts assms(1) have same: "points' = points" by simp
  have "r = p(''audio_url'' \<mapsto> VStr (''http://localhost:8000/audio/'' @ final_segment path))"
    if "p ''clip_path'' = Some (VStr path) \<and> path \<noteq> []" for path
    using that p(3) by (simp add: add_audio_url_final_segment)
  with p same
  show "\<exists>p \<in> set points. dict_get p ''bird_id'' = b
               \<and> (\<forall>path. p ''clip_path'' = Some (VStr path) \<and> path \<noteq> [] \<longrightarrow>
                     r = p(''audio_url'' \<mapsto>
                             VStr (''http://localhost:8000/audio/'' @ final_segment path)))"
    by blast
qed

theorem audio_cache_url_final_segment_witness:
  "\<exists>l. fst (get_all_audio_data
          (\<lambda>k coll limit. Inr [[''bird_id'' \<mapsto> VNum 4,
             ''clip_path'' \<mapsto> VStr (''C:'' @ [CHR 0x5C] @ ''clips'' @ [CHR 0x5C] @ ''sparrow_01.wav'')]])
          0) (VNum 4) = Some l
     \<and> [''bird_id'' \<mapsto> VNum 4,
        ''clip_path'' \<mapsto> VStr (''C:'' @ [CHR 0x5C] @ ''clips'' @ [CHR 0x5C] @ ''sparrow_01.wav''),
        ''audio_url'' \<mapsto> VStr ''http://localhost:8000/audio/sparrow_01.wav''] \<in> set l"
proof -
  let ?path = "''C:'' @ [CHR 0x5C] @ ''clips'' @ [CHR 0x5C] @ ''sparrow_01.wav''"
  let ?p = "[''bird_id'' \<mapsto> VNum 4, ''clip_path'' \<mapsto> VStr ?path]"
  let ?st = "\<lambda>(k::nat) (coll::string) (limit::nat). (Inr [?p] :: error + dict list)"
  have 1: "?st 0 ''bird_audio_search'' 1000 = Inr [?p]" by simp
  have 2: "\<forall>q \<in> set [?p]. \<forall>x. q ''clip_path'' = Some (VNum x) \<longrightarrow> x = 0" by simp
  have 3: "final_segment ?path = ''sparrow_01.wav''" by (simp add: final_segment_def)
  have 4: "?p \<in> set [?p] \<and> ?p ''clip_path'' = Some (VStr ?path) \<and> ?path \<noteq> []" by simp
  have 5: "dict_get ?p ''bird_id'' = VNum 4" by (simp add: dict_get_def)
  from audio_cache_url_final_segment [of ?st 0 "[?p]", OF 1 2, THEN conjunct1, rule_format, OF 4]
  show ?thesis unfolding 3 5 by simp
qed

section \<open>Deduplication by entity\<close>

lemma first_occurrences_Nil: "first_occurrences [] = []"
  by (simp add: first_occurrences_def)

lemma remdups_snoc:
  "remdups (ys @ [x]) = remdups (filter (\<lambda>y. y \<noteq> x) ys) @ [x]"
  by (induction ys) auto

lemma first_occurrences_Cons:
  "first_occurrences (x # xs) = x # first_occurrences (filter (\<lambda>y. y \<noteq> x) xs)"
  by (simp add: first_occurrences_def remdups_snoc rev_filter)

lemma set_first_occurrences: "set (first_occurrences xs) = set xs"
  by (simp add: first_occurrences_def)

lemma distinct_first_occurrences: "distinct (first_occurrences xs)"
  by (simp add: first_occurrences_def)

lemma unique_loop_inv:
  assumes "unique_loop c t hs seen acc = Inr rs"
  shows "\<exists>rs'. rs = acc @ rs'
           \<and> map bird_id rs' =
               first_occurrences (filter (\<lambda>b. b \<noteq> VNone \<and> b \<notin> seen) (map hit_id hs))
           \<and> (\<forall>r \<in> set rs'. \<exists>h. find (\<lambda>h. hit_id h = bird_id r) hs = Some h
                                  \<and> hit_id h \<notin> seen
                                  \<and> create_comprehensive_result c h t = Inr (Some r))"
  using assms
proof (induction hs arbitrary: seen acc)
  case Nil
  then show ?case by (simp add: first_occurrences_Nil)
next
  case (Cons h hs)
  let ?b = "hit_id h"
  show ?case
  proof (cases "?b \<noteq> VNone \<and> ?b \<notin> seen")
    case fresh: True
    then have nn: "dict_get (payload h) ''bird_id'' \<noteq> VNone"
      by (simp add: hit_id_def)
    from fresh Cons.prems obtain r0 where
      r0: "create_comprehensive_result c h t = Inr (Some r0)" and
      rest: "unique_loop c t hs (insert ?b seen) (acc @ [r0]) = Inr rs"
      using create_None_iff [of c h t]
      by (auto simp: hit_id_def Let_def split: sum.splits option.splits)
    from Cons.IH [OF rest] obtain rs' where
      rs: "rs = (acc @ [r0]) @ rs'" and
      ids: "map bird_id rs' =
              first_occurrences (filter (\<lambda>b. b \<noteq> VNone \<and> b \<notin> insert ?b seen) (map hit_id hs))" and
      orig: "\<forall>r \<in> set rs'. \<exists>h'. find (\<lambda>h'. hit_id h' = bird_id r) hs = Some h'
                                  \<and> hit_id h' \<notin> insert ?b seen
                                  \<and> create_comprehensive_result c h' t = Inr (Some r)"
      by blast
    have id0: "bird_id r0 = ?b"
      using create_SomeD(2) [OF r0] by (simp add: hit_id_def)
    have f: "filter (\<lambda>y. y \<noteq> ?b) (filter (\<lambda>b. b \<noteq> VNone \<and> b \<notin> seen) (map hit_id hs))
             = filter (\<lambda>b. b \<noteq> VNone \<and> b \<notin> insert ?b seen) (map hit_id hs)"
      by (auto intro: filter_cong)
    have 1: "rs = acc @ (r0 # rs')" using rs by simp
    have "first_occurrences (filter (\<lambda>b. b \<noteq> VNone \<and> b \<notin> seen) (map hit_id (h # hs)))
            = first_occurrences (?b # filter (\<lambda>b. b \<noteq> VNone \<and> b \<notin> seen) (map hit_id hs))"
      using fresh by simp
    also have "\<dots> = ?b # first_occurrences
             (filter (\<lambda>y. y \<noteq> ?b) (filter (\<lambda>b. b \<noteq> VNone \<and> b \<notin> seen) (map hit_id hs)))"
      by (rule first_occurrences_Cons)
    also have "\<dots> = bird_id r0 # map bird_id rs'"
      by (simp only: f ids id0)
    finally have 2: "map bird_id (r0 # rs') =
               first_occurrences (filter (\<lambda>b. b \<noteq> VNone \<and> b \<notin> seen) (map hit_id (h # hs)))"
      by simp
    have 3: "\<exists>h'. find (\<lambda>h'. hit_id h' = bird_id r) (h # hs) = Some h'
                                  \<and> hit_id h' \<notin> seen
                                  \<and> create_comprehensive_result c h' t = Inr (Some r)"
      if "r \<in> set (r0 # rs')" for r
    proof (cases "r = r0")
      case True
      then show ?thesis using r0 id0 fresh by simp
    next
      case False
      with that have "r \<in> set rs'" by simp
      with orig obtain h' where h': "find (\<lambda>h'. hit_id h' = bird_id r) hs = Some h'"
        "hit_id h' \<notin> insert ?b seen" "create_comprehensive_result c h' t = Inr (Some r)"
        by blast
      have "bird_id r = hit_id h'"
        using create_SomeD(2) [OF h'(3)] by (simp add: hit_id_def)
      with h'(2) have "hit_id h \<noteq> bird_id r" by auto
      with h' show ?thesis by simp
    qed
    from 1 2 3 show ?thesis by blast
  next
    case stale: False
    then have rest: "unique_loop c t hs seen acc = Inr rs"
      using Cons.prems by (auto simp: hit_id_def Let_def)
    from Cons.IH [OF rest] obtain rs' where
      rs: "rs = acc @ rs'" and
      ids: "map bird_id rs' =
              first_occurrences (filter (\<lambda>b. b \<noteq> VNone \<and> b \<notin> seen) (map hit_id hs))" and
      orig: "\<forall>r \<in> set rs'. \<exists>h'. find (\<lambda>h'. hit_id h' = bird_id r) hs = Some h'
                                  \<and> hit_id h' \<notin> seen
                                  \<and> create_comprehensive_result c h' t = Inr (Some r)"
      by blast
    have 2: "map bird_id rs' =
               first_occurrences (filter (\<lambda>b. b \<noteq> VNone \<and> b \<notin> seen) (map hit_id (h # hs)))"
      using stale ids by auto
    have 3: "\<exists>h'. find (\<lambda>h'. hit_id h' = bird_id r) (h # hs) = Some h'
                                  \<and> hit_id h' \<notin> seen
                                  \<and> create_comprehensive_result c h' t = Inr (Some r)"
      if "r \<in> set rs'" for r
    proof -
      from orig that obtain h' where h': "find (\<lambda>h'. hit_id h' = bird_id r) hs = Some h'"
        "hit_id h' \<notin> seen" "create_comprehensive_result c h' t = Inr (Some r)"
        by blast
      have eq: "bird_id r = hit_id h'" and nn: "hit_id h' \<noteq> VNone"
        using create_SomeD(1,2) [OF h'(3)] by (simp_all add: hit_id_def)
      with h'(2) stale have "hit_id h \<noteq> bird_id r" by auto
      with h' show ?thesis by simp
    qed
    from rs 2 3 show ?thesis by blast
  qed
qed

text \<open>
  Claim C3. When \<^verbatim>\<open>get_unique_birds_from_results\<close> returns, the ids of its results
  are the first occurrences of the hits' ids that are not \<^verbatim>\<open>None\<close>, in the order of
  the hits, and every result is the join of the first hit that carries its id: a later hit
  for a seen id is dropped, whatever its score.
\<close>

theorem dedup_keeps_first_occurrence:
  assumes "get_unique_birds_from_results c hits t = Inr rs"
  shows "map bird_id rs = first_occurrences (filter (\<lambda>b. b \<noteq> VNone) (map hit_id hits))
       \<and> (\<forall>r \<in> set rs. \<exists>h. find (\<lambda>h. hit_id h = bird_id r) hits = Some h
                            \<and> create_comprehensive_result c h t = Inr (Some r))"
  using unique_loop_inv [of c t hits "{}" "[]" rs] assms
  by (auto simp: get_unique_birds_from_results_def)

lemma dedup_example_run:
  "\<exists>rs. get_unique_birds_from_results
       \<lparr> ALL_TEXT_DATA = Map.empty, ALL_IMAGE_DATA = Map.empty, ALL_AUDIO_DATA = Map.empty \<rparr>
       [\<lparr> payload = [''bird_id'' \<mapsto> VNum 5], score = 9/10 \<rparr>,
        \<lparr> payload = [''bird_id'' \<mapsto> VNum 3], score = 8/10 \<rparr>,
        \<lparr> payload = [''bird_id'' \<mapsto> VNum 5], score = 95/100 \<rparr>,
        \<lparr> payload = [''bird_id'' \<mapsto> VNum 7], score = 7/10 \<rparr>,
        \<lparr> payload = [''bird_id'' \<mapsto> VNum 3], score = 99/100 \<rparr>] ''image'' = Inr rs
     \<and> map confidence_score rs = [9/10, 8/10, 7/10]"
  by (simp add: get_unique_birds_from_results_def create_comprehensive_result_def Let_def
        dict_get_def cache_get_def wikipedia_url_def)

theorem dedup_keeps_first_occurrence_witness:
  "\<exists>rs. get_unique_birds_from_results
       \<lparr> ALL_TEXT_DATA = Map.empty, ALL_IMAGE_DATA = Map.empty, ALL_AUDIO_DATA = Map.empty \<rparr>
       [\<lparr> payload = [''bird_id'' \<mapsto> VNum 5], score = 9/10 \<rparr>,
        \<lparr> payload = [''bird_id'' \<mapsto> VNum 3], score = 8/10 \<rparr>,
        \<lparr> payload = [''bird_id'' \<mapsto> VNum 5], score = 95/100 \<rparr>,
        \<lparr> payload = [''bird_id'' \<mapsto> VNum 7], score = 7/10 \<rparr>,
        \<lparr> payload = [''bird_id'' \<mapsto> VNum 3], score = 99/100 \<rparr>] ''image'' = Inr rs
     \<and> map bird_id rs = [VNum 5, VNum 3, VNum 7]
     \<and> map confidence_score rs = [9/10, 8/10, 7/10]"
proof -
  let ?c = "\<lparr> ALL_TEXT_DATA = Map.empty, ALL_IMAGE_DATA = Map.empty, ALL_AUDIO_DATA = Map.empty \<rparr>"
  let ?hits = "[\<lparr> payload = [''bird_id'' \<mapsto> VNum 5], score = 9/10 \<rparr>,
        \<lparr> payload = [''bird_id'' \<mapsto> VNum 3], score = 8/10 \<rparr>,
        \<lparr> payload = [''bird_id'' \<mapsto> VNum 5], score = 95/100 \<rparr>,
        \<lparr> payload = [''bird_id'' \<mapsto> VNum 7], score = 7/10 \<rparr>,
        \<lparr> payload = [''bird_id'' \<mapsto> VNum 3], score = 99/100 \<rparr>]"
  from dedup_example_run obtain rs where
    run: "get_unique_birds_from_results ?c ?hits ''image'' = Inr rs"
    and scores: "map confidence_score rs = [9/10, 8/10, 7/10]"
    by (elim exE conjE)
  have ids: "map hit_id ?hits = [VNum 5, VNum 3, VNum 5, VNum 7, VNum 3]"
    by (simp add: hit_id_def dict_get_def)
  have firsts: "first_occurrences (filter (\<lambda>b. b \<noteq> VNone) [VNum 5, VNum 3, VNum 5, VNum 7, VNum 3])
      = [VNum 5, VNum 3, VNum 7]"
    by (simp add: first_occurrences_def)
  have "map bird_id rs = [VNum 5, VNum 3, VNum 7]"
    using dedup_keeps_first_occurrence [OF run, THEN conjunct1]
    by (simp only: ids firsts)
  then show ?thesis
    using run scores by (intro exI [of _ rs] conjI)
qed

text \<open>
  The function returns whenever no cached text record holds a true species name that is
  not a string: nothing else can raise.
\<close>

lemma create_returns:
  assumes "\<forall>b ti. ALL_TEXT_DATA c b = Some ti \<longrightarrow> (\<exists>u. wikipedia_url ti = Inr u)"
  shows "\<exists>ro. create_comprehensive_result c h t = Inr ro"
proof (cases "dict_get (payload h) ''bird_id'' = VNone")
  case True
  then show ?thesis by (simp add: create_comprehensive_result_def)
next
  case False
  let ?b = "dict_get (payload h) ''bird_id''"
  have "\<exists>u. wikipedia_url (cache_get (ALL_TEXT_DATA c) ?b Map.empty) = Inr u"
  proof (cases "ALL_TEXT_DATA c ?b")
    case None
    then show ?thesis by (simp add: cache_get_def wikipedia_url_empty)
  next
    case (Some ti)
    then show ?thesis using assms by (simp add: cache_get_def)
  qed
  then obtain u where "wikipedia_url (cache_get (ALL_TEXT_DATA c) ?b Map.empty) = Inr u" ..
  from create_Some_ex [OF False this] show ?thesis by auto
qed

lemma unique_loop_returns:
  assumes "\<forall>b ti. ALL_TEXT_DATA c b = Some ti \<longrightarrow> (\<exists>u. wikipedia_url ti = Inr u)"
  shows "\<exists>rs. unique_loop c t hs seen acc = Inr rs"
proof (induction hs arbitrary: seen acc)
  case Nil
  then show ?case by simp
next
  case (Cons h hs)
  obtain ro where ro: "create_comprehensive_result c h t = Inr ro"
    using create_returns [OF assms] by blast
  show ?case
    using Cons.IH ro by (cases ro) (simp_all add: Let_def)
qed

lemma get_unique_birds_returns:
  assumes "\<forall>b ti. ALL_TEXT_DATA c b = Some ti \<longrightarrow> (\<exists>u. wikipedia_url ti = Inr u)"
  shows "\<exists>rs. get_unique_birds_from_results c hits t = Inr rs"
  unfolding get_unique_birds_from_results_def by (rule unique_loop_returns [OF assms])

section \<open>The search endpoints\<close>

text \<open>
  Claim C4. Deduplication is not applied by every endpoint. On two audio hits for the
  same entity the audio endpoint returns two results with that id, and so does the text
  endpoint on the same hits; only the image endpoint returns one.
\<close>

theorem audio_and_text_search_keep_duplicates:
  "(\<exists>resp. search_by_audio
        \<lparr> ALL_TEXT_DATA = Map.empty, ALL_IMAGE_DATA = Map.empty, ALL_AUDIO_DATA = Map.empty \<rparr>
        ''audio/wav''
        (\<lambda>limit. Inr [\<lparr> payload = [''bird_id'' \<mapsto> VNum 1, ''clip_path'' \<mapsto> VStr ''a.wav''], score = 9/10 \<rparr>,
                       \<lparr> payload = [''bird_id'' \<mapsto> VNum 1, ''clip_path'' \<mapsto> VStr ''b.wav''], score = 8/10 \<rparr>])
        12 = Inr resp
      \<and> map bird_id (results resp) = [VNum 1, VNum 1])
   \<and> (\<exists>resp. search_by_text
        \<lparr> ALL_TEXT_DATA = Map.empty, ALL_IMAGE_DATA = Map.empty, ALL_AUDIO_DATA = Map.empty \<rparr>
        (\<lambda>limit. Inr [\<lparr> payload = [''bird_id'' \<mapsto> VNum 1, ''clip_path'' \<mapsto> VStr ''a.wav''], score = 9/10 \<rparr>,
                       \<lparr> payload = [''bird_id'' \<mapsto> VNum 1, ''clip_path'' \<mapsto> VStr ''b.wav''], score = 8/10 \<rparr>])
        12 = Inr resp
      \<and> map bird_id (results resp) = [VNum 1, VNum 1])
   \<and> (\<exists>resp. search_by_image
        \<lparr> ALL_TEXT_DATA = Map.empty, ALL_IMAGE_DATA = Map.empty, ALL_AUDIO_DATA = Map.empty \<rparr>
        ''image/jpeg''
        (\<lambda>limit. Inr [\<lparr> payload = [''bird_id'' \<mapsto> VNum 1, ''clip_path'' \<mapsto> VStr ''a.wav''], score = 9/10 \<rparr>,
                       \<lparr> payload = [''bird_id'' \<mapsto> VNum 1, ''clip_path'' \<mapsto> VStr ''b.wav''], score = 8/10 \<rparr>])
        12 = Inr resp
      \<and> map bird_id (results resp) = [VNum 1])"
  by (simp add: search_by_audio_def search_by_text_def search_by_image_def
        get_unique_birds_from_results_def py_slice_to_def
        create_comprehensive_result_def Let_def dict_get_def cache_get_def wikipedia_url_def)

text \<open>The image endpoint returns at most one result for an id, and at most \<open>limit\<close> results.\<close>

lemma distinct_take_py: "distinct xs \<Longrightarrow> distinct (py_slice_to n xs)"
  by (simp add: py_slice_to_def)

lemma map_py_slice_to: "map f (py_slice_to n xs) = py_slice_to n (map f xs)"
  by (simp add: py_slice_to_def take_map)

lemma get_unique_distinct:
  assumes "get_unique_birds_from_results c hits t = Inr rs"
  shows "distinct (map bird_id rs)"
  using unique_loop_inv [of c t hits "{}" "[]" rs] assms
  by (auto simp: get_unique_birds_from_results_def distinct_first_occurrences)

lemma search_by_image_distinct:
  assumes "search_by_image c content_type search limit = Inr resp"
  shows "distinct (map bird_id (results resp))"
    and "0 \<le> limit \<Longrightarrow> length (results resp) \<le> nat limit"
proof -
  from assms obtain hits rs where
    rs: "get_unique_birds_from_results c hits ''image'' = Inr rs" and
    resp: "results resp = py_slice_to limit rs"
    by (auto simp: search_by_image_def Let_def split: if_splits sum.splits)
  show "distinct (map bird_id (results resp))"
    using get_unique_distinct [OF rs] by (simp add: resp map_py_slice_to distinct_take_py)
  show "length (results resp) \<le> nat limit" if "0 \<le> limit"
    using that by (simp add: resp py_slice_to_def)
qed

section \<open>Loading and refreshing the caches\<close>

text \<open>
  Claim C6. When the scroll call of a loader raises, whatever the exception, the loader
  returns the empty mapping, and it has made exactly one call to the store: it neither
  raises nor tries again.
\<close>

theorem loaders_empty_on_store_failure:
  "(st k ''bird_text_search'' 100 = Inl e \<longrightarrow> get_all_text_data st k = (Map.empty, Suc k))
   \<and> (st k ''bird_image_search'' 1000 = Inl e \<longrightarrow> get_all_image_data st k = (Map.empty, Suc k))
   \<and> (st k ''bird_audio_search'' 1000 = Inl e \<longrightarrow> get_all_audio_data st k = (Map.empty, Suc k))"
  by (simp add: get_all_text_data_def get_all_image_data_def get_all_audio_data_def)

theorem loaders_empty_on_store_failure_witness:
  "get_all_text_data
     (\<lambda>k coll limit. if k = 0 then Inl StoreError else Inr [[''bird_id'' \<mapsto> VNum 1]]) 0
     = (Map.empty, Suc 0)
   \<and> get_all_image_data
     (\<lambda>k coll limit. if k = 0 then Inl StoreError else Inr [[''bird_id'' \<mapsto> VNum 1]]) 0
     = (Map.empty, Suc 0)
   \<and> get_all_audio_data
     (\<lambda>k coll limit. if k = 0 then Inl StoreError else Inr [[''bird_id'' \<mapsto> VNum 1]]) 0
     = (Map.empty, Suc 0)"
  using loaders_empty_on_store_failure
    [of "\<lambda>k coll limit. if k = 0 then Inl StoreError else Inr [[''bird_id'' \<mapsto> VNum 1]]" 0 StoreError]
  by simp

lemma loader_calls:
  "snd (get_all_text_data st k) = Suc k"
  "snd (get_all_image_data st k) = Suc k"
  "snd (get_all_audio_data st k) = Suc k"
  by (simp_all add: get_all_text_data_def get_all_image_data_def get_all_audio_data_def
      split: sum.splits)

lemma loader_same_answer:
  "st k ''bird_text_search'' 100 = st k' ''bird_text_search'' 100
     \<Longrightarrow> fst (get_all_text_data st k) = fst (get_all_text_data st k')"
  "st k ''bird_image_search'' 1000 = st k' ''bird_image_search'' 1000
     \<Longrightarrow> fst (get_all_image_data st k) = fst (get_all_image_data st k')"
  "st k ''bird_audio_search'' 1000 = st k' ''bird_audio_search'' 1000
     \<Longrightarrow> fst (get_all_audio_data st k) = fst (get_all_audio_data st k')"
  by (simp_all add: get_all_text_data_def get_all_image_data_def get_all_audio_data_def
      split: sum.splits)

lemma refresh_cache_state:
  "fst (refresh_cache st (c, k)) =
     (\<lparr> ALL_TEXT_DATA = fst (get_all_text_data st k),
        ALL_IMAGE_DATA = fst (get_all_image_data st (Suc k)),
        ALL_AUDIO_DATA = fst (get_all_audio_data st (Suc (Suc k))) \<rparr>, Suc (Suc (Suc k)))"
proof -
  obtain t k1 where t: "get_all_text_data st k = (t, k1)" by (cases "get_all_text_data st k")
  then have k1: "k1 = Suc k" using loader_calls(1) [of st k] by simp
  obtain i k2 where i: "get_all_image_data st k1 = (i, k2)" by (cases "get_all_image_data st k1")
  then have k2: "k2 = Suc k1" using loader_calls(2) [of st k1] by simp
  obtain a k3 where a: "get_all_audio_data st k2 = (a, k3)" by (cases "get_all_audio_data st k2")
  then have k3: "k3 = Suc k2" using loader_calls(3) [of st k2] by simp
  have "c\<lparr>ALL_TEXT_DATA := t, ALL_IMAGE_DATA := i, ALL_AUDIO_DATA := a\<rparr>
          = \<lparr> ALL_TEXT_DATA = t, ALL_IMAGE_DATA = i, ALL_AUDIO_DATA = a \<rparr>"
    by (cases c) simp
  then show ?thesis
    using t i a k1 k2 k3 by (simp add: refresh_cache_def Let_def)
qed

lemma refresh_cache_counts:
  "snd (refresh_cache st s) =
     \<lparr> message = ''Cache refreshed'',
       count_text = card (dom (ALL_TEXT_DATA (fst (fst (refresh_cache st s))))),
       count_images = card (dom (ALL_IMAGE_DATA (fst (fst (refresh_cache st s))))),
       count_audio = card (dom (ALL_AUDIO_DATA (fst (fst (refresh_cache st s))))) \<rparr>"
  by (simp add: refresh_cache_def Let_def split: prod.splits)

text \<open>
  Claim C5. When the store gives the same answers at every call, a second
  \<^verbatim>\<open>refresh_cache\<close> leaves the three caches as the first one left them, and reports the
  same counts.
\<close>

theorem refresh_idempotent:
  assumes "\<And>k coll limit. st k coll limit = st 0 coll limit"
  shows "fst (fst (refresh_cache st (fst (refresh_cache st s)))) = fst (fst (refresh_cache st s))
       \<and> snd (refresh_cache st (fst (refresh_cache st s))) = snd (refresh_cache st s)"
proof -
  obtain c k where s: "s = (c, k)" by (cases s)
  have same: "st k coll limit = st k' coll limit" for k k' coll limit
    using assms [of k] assms [of k'] by simp
  have t: "fst (get_all_text_data st (Suc (Suc (Suc k)))) = fst (get_all_text_data st k)"
    by (rule loader_same_answer(1)) (rule same)
  have i: "fst (get_all_image_data st (Suc (Suc (Suc (Suc k))))) = fst (get_all_image_data st (Suc k))"
    by (rule loader_same_answer(2)) (rule same)
  have a: "fst (get_all_audio_data st (Suc (Suc (Suc (Suc (Suc k))))))
             = fst (get_all_audio_data st (Suc (Suc k)))"
    by (rule loader_same_answer(3)) (rule same)
  have caches: "fst (fst (refresh_cache st (fst (refresh_cache st s)))) = fst (fst (refresh_cache st s))"
    unfolding s refresh_cache_state by (simp add: t i a)
  moreover have "snd (refresh_cache st (fst (refresh_cache st s))) = snd (refresh_cache st s)"
    by (simp only: refresh_cache_counts [of st "fst (refresh_cache st s)"]
          refresh_cache_counts [of st s] caches)
  ultimately show ?thesis by simp
qed

theorem refresh_idempotent_witness:
  "fst (fst (refresh_cache
        (\<lambda>k coll limit. if coll = ''bird_text_search''
                          then Inr [[''bird_id'' \<mapsto> VNum 1, ''species_name'' \<mapsto> VStr ''Robin'']]
                          else Inr [])
        (fst (refresh_cache
           (\<lambda>k coll limit. if coll = ''bird_text_search''
                          then Inr [[''bird_id'' \<mapsto> VNum 1, ''species_name'' \<mapsto> VStr ''Robin'']]
                          else Inr [])
           (\<lparr> ALL_TEXT_DATA = Map.empty, ALL_IMAGE_DATA = Map.empty, ALL_AUDIO_DATA = Map.empty \<rparr>, 0)))))
   = \<lparr> ALL_TEXT_DATA = [VNum 1 \<mapsto> [''bird_id'' \<mapsto> VNum 1, ''species_name'' \<mapsto> VStr ''Robin'']],
       ALL_IMAGE_DATA = Map.empty, ALL_AUDIO_DATA = Map.empty \<rparr>
   \<and> count_text (snd (refresh_cache
        (\<lambda>k coll limit. if coll = ''bird_text_search''
                          then Inr [[''bird_id'' \<mapsto> VNum 1, ''species_name'' \<mapsto> VStr ''Robin'']]
                          else Inr [])
        (fst (refresh_cache
           (\<lambda>k coll limit. if coll = ''bird_text_search''
                          then Inr [[''bird_id'' \<mapsto> VNum 1, ''species_name'' \<mapsto> VStr ''Robin'']]
                          else Inr [])
           (\<lparr> ALL_TEXT_DATA = Map.empty, ALL_IMAGE_DATA = Map.empty, ALL_AUDIO_DATA = Map.empty \<rparr>, 0))))) = 1"
proof -
  let ?st = "\<lambda>(k::nat) (coll::string) (limit::nat).
               if coll = ''bird_text_search''
               then Inr [[''bird_id'' \<mapsto> VNum 1, ''species_name'' \<mapsto> VStr ''Robin'']]
               else (Inr [] :: error + dict list)"
  let ?s = "(\<lparr> ALL_TEXT_DATA = Map.empty, ALL_IMAGE_DATA = Map.empty, ALL_AUDIO_DATA = Map.empty \<rparr>, 0::nat)"
  have same: "\<And>k coll limit. ?st k coll limit = ?st 0 coll limit" by simp
  have once: "fst (fst (refresh_cache ?st ?s)) =
      \<lparr> ALL_TEXT_DATA = [VNum 1 \<mapsto> [''bird_id'' \<mapsto> VNum 1, ''species_name'' \<mapsto> VStr ''Robin'']],
       ALL_IMAGE_DATA = Map.empty, ALL_AUDIO_DATA = Map.empty \<rparr>"
    by (simp add: refresh_cache_state get_all_text_data_def get_all_image_data_def
          get_all_audio_data_def dict_get_def)
  have n: "count_text (snd (refresh_cache ?st ?s)) = 1"
    by (simp add: refresh_cache_counts once)
  show ?thesis
    using refresh_idempotent [of ?st ?s, OF same] once n by simp
qed

end
